theory Spec2Isabelle
  imports Main
begin

section \<open>Data model (api.ts and the App component)\<close>

text \<open>
  JavaScript strings are modelled as \<open>string\<close>; a \<open>char\<close> stands for one code unit
  in the range U+0000..U+00FF. An optional field (\<open>alt?: string | null\<close>) is an
  \<open>option\<close>: \<open>None\<close> stands for both \<open>undefined\<close> and \<open>null\<close>, which the code never
  tells apart. The \<open>number\<close> fields hold integers. Record fields that share a name in
  the source carry a prefix here (\<open>scan_handle\<close>, \<open>req_handle\<close>, \<open>upd_uri\<close>, \<open>res_uri\<close>,
  \<open>res_error\<close>), and the field \<open>text\<close> of a post is \<open>post_text\<close>.
\<close>

record ImageInfo =
  index :: int
  thumb_url :: string
  fullsize_url :: string
  alt :: "string option"
  generated_alt :: "string option"

record PostInfo =
  uri :: string
  cid :: string
  post_text :: string
  created_at :: "string option"
  images :: "ImageInfo list"

record ScanResponse =
  scan_handle :: string
  total_posts :: int
  total_images :: int
  posts :: "PostInfo list"
  alt_generation_enabled :: bool

record ScanRequest =
  req_handle :: string
  app_password :: string
  generate_alt :: "bool option"

record AltUpdate =
  upd_uri :: string
  image_index :: int
  new_alt :: string

record ApplyResultItem =
  res_uri :: string
  success :: bool
  res_error :: "string option"

record ApplyResponse =
  updated :: "ApplyResultItem list"

text \<open>\<open>AltState\<close>; its field \<open>apply\<close> is named \<open>apply_flag\<close> here.\<close>

record AltState =
  apply_flag :: bool
  draftAlt :: string

type_synonym AltStateMap = "string \<rightharpoonup> AltState"

datatype FilterMode = FilterAll | MissingAlt | HasAlt | Selected

section \<open>String primitives of the language\<close>

text \<open>
  The white space and line terminators that \<open>String.prototype.trim\<close> strips, among
  the code units below 256: TAB, LF, VT, FF, CR, SP and NBSP.
\<close>

definition is_ws :: "char \<Rightarrow> bool" where
  "is_ws c \<longleftrightarrow> c \<in> set [CHR 0x09, CHR 0x0A, CHR 0x0B, CHR 0x0C, CHR 0x0D, CHR 0x20, CHR 0xA0]"

definition trim :: "string \<Rightarrow> string" where
  "trim s = rev (dropWhile is_ws (rev (dropWhile is_ws s)))"

text \<open>Decimal rendering of a number, as template literals do for integers.\<close>

definition digit_char :: "nat \<Rightarrow> char" where
  "digit_char d = ''0123456789'' ! d"

fun show_nat :: "nat \<Rightarrow> string" where
  "show_nat n = (if n < 10 then [digit_char n] else show_nat (n div 10) @ [digit_char (n mod 10)])"

declare show_nat.simps [simp del]

definition show_int :: "int \<Rightarrow> string" where
  "show_int i = (if i < 0 then CHR ''-'' # show_nat (nat (- i)) else show_nat (nat i))"

section \<open>Composite key and default derivation\<close>

definition makeKey :: "string \<Rightarrow> int \<Rightarrow> string" where
  "makeKey u i = u @ ''::'' @ show_int i"

text \<open>The expression \<open>img.alt && img.alt.trim().length > 0\<close>.\<close>

definition hasAlt :: "ImageInfo \<Rightarrow> bool" where
  "hasAlt img = (case alt img of None \<Rightarrow> False | Some a \<Rightarrow> a \<noteq> [] \<and> length (trim a) > 0)"

text \<open>The expression \<open>img.generated_alt || ""\<close>.\<close>

definition generated_or_empty :: "ImageInfo \<Rightarrow> string" where
  "generated_or_empty img =
     (case generated_alt img of None \<Rightarrow> [] | Some g \<Rightarrow> if g \<noteq> [] then g else [])"

text \<open>The constant \<open>baseAlt\<close> (also the draft of the fallback state objects).\<close>

definition baseAlt :: "ImageInfo \<Rightarrow> string" where
  "baseAlt img = (if hasAlt img then the (alt img) else generated_or_empty img)"

text \<open>The inner and the outer \<open>forEach\<close> of \<open>initAltStateFromResult\<close>.\<close>

fun init_images :: "string \<Rightarrow> ImageInfo list \<Rightarrow> AltStateMap \<Rightarrow> AltStateMap" where
  "init_images u [] next = next"
| "init_images u (img # imgs) next =
     init_images u imgs
       (next(makeKey u (index img) \<mapsto>
          \<lparr>apply_flag = (case alt img of None \<Rightarrow> True | Some a \<Rightarrow> a = [] \<or> length (trim a) = 0),
           draftAlt = baseAlt img\<rparr>))"

fun init_posts :: "PostInfo list \<Rightarrow> AltStateMap \<Rightarrow> AltStateMap" where
  "init_posts [] next = next"
| "init_posts (p # ps) next = init_posts ps (init_images (uri p) (images p) next)"

definition initAltStateFromResult :: "ScanResponse \<Rightarrow> AltStateMap" where
  "initAltStateFromResult data = init_posts (posts data) Map.empty"

section \<open>The API gateway (api.ts)\<close>

text \<open>
  The platform is a parameter of the model. \<open>fetch\<close> receives the URL and the
  object that the code serialises into the request body; it either rejects with the
  message of a network error (\<open>Inl\<close>) or resolves to a response. \<open>json_scan\<close> and
  \<open>json_apply\<close> stand for \<open>res.json()\<close> read at the declared response type (\<open>Inl\<close>:
  the message of the error it throws). \<open>json_detail\<close> stands for
  \<open>JSON.parse(err.message)\<close> followed by the test of \<open>parsed?.detail\<close>: the parse
  throws, or the detail is missing or falsy, or it is a string or a value that
  \<open>JSON.stringify\<close> renders.
\<close>

datatype request_body = ScanBody ScanRequest | ApplyBody string string "AltUpdate list"

record http_response =
  ok :: bool
  status :: nat
  body :: string

datatype detail_result = ParseThrows | NoDetail | Detail string

record env =
  fetch :: "string \<Rightarrow> request_body \<Rightarrow> string + http_response"
  json_scan :: "string \<Rightarrow> string + ScanResponse"
  json_apply :: "string \<Rightarrow> string + ApplyResponse"
  json_detail :: "string \<Rightarrow> detail_result"

type_synonym net_call = "string \<times> request_body"

definition API_BASE :: string where
  "API_BASE = ''http://localhost:8000''"

text \<open>
  Both gateway functions return the outcome of the promise (\<open>Inl m\<close>: it rejects with
  an error whose message is \<open>m\<close>) together with the requests they issued.
\<close>

definition scanImages :: "env \<Rightarrow> ScanRequest \<Rightarrow> (string + ScanResponse) \<times> net_call list" where
  "scanImages e req =
     (let url = API_BASE @ ''/api/scan'';
          b = ScanBody (req\<lparr>generate_alt :=
                 Some (case generate_alt req of None \<Rightarrow> True | Some g \<Rightarrow> g)\<rparr>)
      in (case fetch e url b of
            Inl m \<Rightarrow> Inl m
          | Inr res \<Rightarrow>
              if \<not> ok res
              then Inl (if body res \<noteq> [] then body res
                        else ''HTTP error '' @ show_nat (status res))
              else json_scan e (body res),
          [(url, b)]))"

definition applyAltUpdates ::
  "env \<Rightarrow> string \<Rightarrow> string \<Rightarrow> AltUpdate list \<Rightarrow> (string + ApplyResponse) \<times> net_call list" where
  "applyAltUpdates e h pw updates =
     (let url = API_BASE @ ''/api/apply'';
          b = ApplyBody h pw updates
      in (case fetch e url b of
            Inl m \<Rightarrow> Inl m
          | Inr res \<Rightarrow>
              if \<not> ok res
              then Inl (if body res \<noteq> [] then body res
                        else ''HTTP error '' @ show_nat (status res))
              else json_apply e (body res),
          [(url, b)]))"

section \<open>The component state and its handlers\<close>

text \<open>
  The \<open>useState\<close> cells of \<open>App\<close>. A handler is a function from the state in which it
  is triggered to the state in which it ends, with no other handler running in between.
\<close>

record AppState =
  handle :: string
  appPassword :: string
  loading :: bool
  applying :: bool
  error :: "string option"
  applyMessage :: "string option"
  result :: "ScanResponse option"
  altState :: AltStateMap
  filterMode :: FilterMode

text \<open>The message computed in the \<open>catch\<close> blocks, from the default and \<open>err.message\<close>.\<close>

definition catch_message :: "env \<Rightarrow> string \<Rightarrow> string \<Rightarrow> string" where
  "catch_message e dflt m =
     (case json_detail e m of
        ParseThrows \<Rightarrow> (if m \<noteq> [] then m else dflt)
      | NoDetail \<Rightarrow> dflt
      | Detail d \<Rightarrow> d)"

text \<open>
  \<open>onSubmit\<close>, from the click to the end of the \<open>finally\<close> block: the final state
  and the requests issued.
\<close>

definition onSubmit :: "env \<Rightarrow> AppState \<Rightarrow> AppState \<times> net_call list" where
  "onSubmit e s =
     (let s1 = s\<lparr>error := None, applyMessage := None, result := None, altState := Map.empty\<rparr>
      in if handle s = [] \<or> appPassword s = []
         then (s1\<lparr>error := Some ''Please enter both handle and app password.''\<rparr>, [])
         else
           (let s2 = s1\<lparr>loading := True\<rparr>
            in case scanImages e
                    \<lparr>req_handle = handle s, app_password = appPassword s, generate_alt = Some True\<rparr> of
                 (Inr data, calls) \<Rightarrow>
                   (s2\<lparr>result := Some data, altState := initAltStateFromResult data,
                       loading := False\<rparr>, calls)
               | (Inl m, calls) \<Rightarrow>
                   (s2\<lparr>error := Some (catch_message e ''An error occurred while scanning.'' m),
                       loading := False\<rparr>, calls)))"

definition handleAltChange :: "string \<Rightarrow> int \<Rightarrow> string \<Rightarrow> AppState \<Rightarrow> AppState" where
  "handleAltChange u i v s =
     (let key = makeKey u i; prev = altState s
      in s\<lparr>altState := prev(key \<mapsto>
            \<lparr>apply_flag = (case prev key of None \<Rightarrow> False | Some st \<Rightarrow> apply_flag st),
             draftAlt = v\<rparr>)\<rparr>)"

definition handleApplyToggle :: "string \<Rightarrow> int \<Rightarrow> bool \<Rightarrow> AppState \<Rightarrow> AppState" where
  "handleApplyToggle u i a s =
     (let key = makeKey u i; prev = altState s
      in s\<lparr>altState := prev(key \<mapsto>
            \<lparr>apply_flag = a,
             draftAlt = (case prev key of None \<Rightarrow> [] | Some st \<Rightarrow> draftAlt st)\<rparr>)\<rparr>)"

text \<open>The two \<open>forEach\<close> loops of \<open>onApplyChanges\<close> that push onto \<open>updates\<close>.\<close>

fun collect_images ::
  "PostInfo \<Rightarrow> ImageInfo list \<Rightarrow> AltStateMap \<Rightarrow> AltUpdate list \<Rightarrow> AltUpdate list" where
  "collect_images post [] m updates = updates"
| "collect_images post (img # imgs) m updates =
     (case m (makeKey (uri post) (index img)) of
        None \<Rightarrow> collect_images post imgs m updates
      | Some state \<Rightarrow>
          if \<not> apply_flag state then collect_images post imgs m updates
          else (let draft = trim (draftAlt state)
                in if draft = [] then collect_images post imgs m updates
                   else collect_images post imgs m
                          (updates @ [\<lparr>upd_uri = uri post, image_index = index img,
                                       new_alt = draft\<rparr>])))"

fun collect_posts :: "PostInfo list \<Rightarrow> AltStateMap \<Rightarrow> AltUpdate list \<Rightarrow> AltUpdate list" where
  "collect_posts [] m updates = updates"
| "collect_posts (post # ps) m updates = collect_posts ps m (collect_images post (images post) m updates)"

text \<open>The image mapper of the optimistic update.\<close>

definition reconcile_image :: "AltStateMap \<Rightarrow> PostInfo \<Rightarrow> ImageInfo \<Rightarrow> ImageInfo" where
  "reconcile_image m post img =
     (case m (makeKey (uri post) (index img)) of
        None \<Rightarrow> img
      | Some state \<Rightarrow>
          if apply_flag state \<and> trim (draftAlt state) \<noteq> []
          then img\<lparr>alt := Some (trim (draftAlt state))\<rparr>
          else img)"

definition onApplyChanges :: "env \<Rightarrow> AppState \<Rightarrow> AppState \<times> net_call list" where
  "onApplyChanges e s =
     (case result s of
        None \<Rightarrow> (s, [])
      | Some r \<Rightarrow>
          (let s1 = s\<lparr>applyMessage := None, error := None\<rparr>;
               updates = collect_posts (posts r) (altState s) []
           in if length updates = 0
              then (s1\<lparr>applyMessage := Some ''No images selected for update.''\<rparr>, [])
              else
                (let s2 = s1\<lparr>applying := True\<rparr>
                 in case applyAltUpdates e (handle s) (appPassword s) updates of
                      (Inr resp, calls) \<Rightarrow>
                        (let successes = length (filter success (updated resp));
                             failures = length (updated resp) - successes;
                             nextResult = r\<lparr>posts :=
                               map (\<lambda>post. post\<lparr>images :=
                                      map (reconcile_image (altState s) post) (images post)\<rparr>)
                                   (posts r)\<rparr>
                         in (s2\<lparr>applyMessage :=
                                  Some (''Applied alt text to '' @ show_nat successes @ '' post(s).'' @
                                        (if failures > 0
                                         then '' '' @ show_nat failures @
                                              '' post(s) failed; check logs/errors.''
                                         else [])),
                                result := Some nextResult,
                                applying := False\<rparr>, calls))
                    | (Inl m, calls) \<Rightarrow>
                        (s2\<lparr>error := Some (catch_message e
                                  ''An error occurred while applying changes.'' m),
                            applying := False\<rparr>, calls))))"

text \<open>The loops of \<open>bulkSelectMissingAlt\<close> over the copy \<open>next\<close> of the previous map.\<close>

fun select_images :: "string \<Rightarrow> ImageInfo list \<Rightarrow> AltStateMap \<Rightarrow> AltStateMap" where
  "select_images u [] next = next"
| "select_images u (img # imgs) next =
     (let key = makeKey u (index img)
      in if \<not> hasAlt img
         then (let existing = (case next key of
                                 Some st \<Rightarrow> st
                               | None \<Rightarrow> \<lparr>apply_flag = False, draftAlt = baseAlt img\<rparr>)
               in select_images u imgs (next(key \<mapsto> existing\<lparr>apply_flag := True\<rparr>)))
         else select_images u imgs next)"

fun select_posts :: "PostInfo list \<Rightarrow> AltStateMap \<Rightarrow> AltStateMap" where
  "select_posts [] next = next"
| "select_posts (p # ps) next = select_posts ps (select_images (uri p) (images p) next)"

definition bulkSelectMissingAlt :: "AppState \<Rightarrow> AppState" where
  "bulkSelectMissingAlt s =
     (case result s of
        None \<Rightarrow> s
      | Some r \<Rightarrow> s\<lparr>altState := select_posts (posts r) (altState s)\<rparr>)"

definition bulkClearSelections :: "AppState \<Rightarrow> AppState" where
  "bulkClearSelections s =
     s\<lparr>altState := (\<lambda>key. case altState s key of
                             None \<Rightarrow> None
                           | Some v \<Rightarrow> Some (v\<lparr>apply_flag := False\<rparr>))\<rparr>"

definition shouldShowImage :: "AppState \<Rightarrow> PostInfo \<Rightarrow> ImageInfo \<Rightarrow> bool" where
  "shouldShowImage s post img =
     (let key = makeKey (uri post) (index img);
          state = altState s key;
          isSelected = (case state of None \<Rightarrow> False | Some st \<Rightarrow> apply_flag st)
      in case filterMode s of
           MissingAlt \<Rightarrow> \<not> hasAlt img
         | HasAlt \<Rightarrow> hasAlt img
         | Selected \<Rightarrow> isSelected
         | FilterAll \<Rightarrow> True)"

section \<open>Notions used to state the properties\<close>

text \<open>An existing alt that is absent or empty after trimming.\<close>

definition alt_missing :: "ImageInfo \<Rightarrow> bool" where
  "alt_missing img = (case alt img of None \<Rightarrow> True | Some a \<Rightarrow> trim a = [])"

text \<open>The draft rule of the default derivation, in the words of the specification.\<close>

definition default_draft :: "ImageInfo \<Rightarrow> string" where
  "default_draft img =
     (if alt_missing img
      then (case generated_alt img of Some g \<Rightarrow> g | None \<Rightarrow> [])
      else the (alt img))"

text \<open>The images of a scan result with their posts, in the order the loops visit them.\<close>

definition all_images :: "ScanResponse \<Rightarrow> (PostInfo \<times> ImageInfo) list" where
  "all_images r = concat (map (\<lambda>p. map (Pair p) (images p)) (posts r))"

definition image_id :: "PostInfo \<times> ImageInfo \<Rightarrow> string \<times> int" where
  "image_id pi = (uri (fst pi), index (snd pi))"

definition image_key :: "PostInfo \<times> ImageInfo \<Rightarrow> string" where
  "image_key pi = makeKey (uri (fst pi)) (index (snd pi))"

text \<open>Membership of an image in the submitted batch, and its entry there.\<close>

definition in_batch :: "AltStateMap \<Rightarrow> PostInfo \<times> ImageInfo \<Rightarrow> bool" where
  "in_batch m pi =
     (case m (image_key pi) of
        None \<Rightarrow> False
      | Some st \<Rightarrow> apply_flag st \<and> trim (draftAlt st) \<noteq> [])"

definition batch_entry :: "AltStateMap \<Rightarrow> PostInfo \<times> ImageInfo \<Rightarrow> AltUpdate" where
  "batch_entry m pi =
     \<lparr>upd_uri = uri (fst pi), image_index = index (snd pi),
      new_alt = trim (draftAlt (the (m (image_key pi))))\<rparr>"

text \<open>The scan result after the optimistic merge of the submitted batch.\<close>

definition reconciled :: "AltStateMap \<Rightarrow> ScanResponse \<Rightarrow> ScanResponse" where
  "reconciled m r =
     r\<lparr>posts := map (\<lambda>p. p\<lparr>images :=
            map (\<lambda>img. if in_batch m (p, img)
                        then img\<lparr>alt := Some (new_alt (batch_entry m (p, img)))\<rparr>
                        else img) (images p)\<rparr>) (posts r)\<rparr>"

text \<open>The steps of the loops of \<open>initAltStateFromResult\<close> and \<open>bulkSelectMissingAlt\<close>
  at one image, and how a decimal rendering is read back.\<close>

definition init_step :: "PostInfo \<times> ImageInfo \<Rightarrow> AltStateMap \<Rightarrow> AltStateMap" where
  "init_step pi next =
     next(image_key pi \<mapsto> \<lparr>apply_flag = alt_missing (snd pi), draftAlt = default_draft (snd pi)\<rparr>)"

definition select_step :: "PostInfo \<times> ImageInfo \<Rightarrow> AltStateMap \<Rightarrow> AltStateMap" where
  "select_step pi next =
     (if alt_missing (snd pi)
      then next(image_key pi \<mapsto>
             (case next (image_key pi) of
                Some st \<Rightarrow> st\<lparr>apply_flag := True\<rparr>
              | None \<Rightarrow> \<lparr>apply_flag = True, draftAlt = default_draft (snd pi)\<rparr>))
      else next)"

definition read_nat :: "string \<Rightarrow> nat" where
  "read_nat s = foldl (\<lambda>a c. 10 * a + (of_char c - 48)) 0 s"

subsection \<open>A small scan: one post with two images, the first without alt text\<close>

definition ex_img0 :: ImageInfo where
  "ex_img0 = \<lparr>index = 0, thumb_url = ''t0'', fullsize_url = ''f0'',
              alt = Some [], generated_alt = Some ''a dog''\<rparr>"

definition ex_img1 :: ImageInfo where
  "ex_img1 = \<lparr>index = 1, thumb_url = ''t1'', fullsize_url = ''f1'',
              alt = Some ''cat'', generated_alt = None\<rparr>"

definition ex_post :: PostInfo where
  "ex_post = \<lparr>uri = ''at://p1'', cid = ''c1'', post_text = ''hello'', created_at = None,
              images = [ex_img0, ex_img1]\<rparr>"

definition ex_scan :: ScanResponse where
  "ex_scan = \<lparr>scan_handle = ''me'', total_posts = 1, total_images = 2, posts = [ex_post],
              alt_generation_enabled = True\<rparr>"

definition ex_alts :: AltStateMap where
  "ex_alts = [''at://p1::0'' \<mapsto> \<lparr>apply_flag = True, draftAlt = ''a dog''\<rparr>,
              ''at://p1::1'' \<mapsto> \<lparr>apply_flag = False, draftAlt = ''cat''\<rparr>]"

definition ex_alts_blank :: AltStateMap where
  "ex_alts_blank = [''at://p1::0'' \<mapsto> \<lparr>apply_flag = True, draftAlt = ''  ''\<rparr>,
                    ''at://p1::1'' \<mapsto> \<lparr>apply_flag = False, draftAlt = ''cat''\<rparr>]"

definition ex_alts_edited :: AltStateMap where
  "ex_alts_edited = [''at://p1::0'' \<mapsto> \<lparr>apply_flag = True, draftAlt = ''  ''\<rparr>,
                     ''at://p1::1'' \<mapsto> \<lparr>apply_flag = True, draftAlt = '' dog ''\<rparr>]"

definition ex_alts_partial :: AltStateMap where
  "ex_alts_partial = [''at://p1::1'' \<mapsto> \<lparr>apply_flag = True, draftAlt = ''kitten''\<rparr>]"

text \<open>A scan in which two posts carry the same URI, so that two images share a key.\<close>

definition ex_scan_dup :: ScanResponse where
  "ex_scan_dup = \<lparr>scan_handle = ''me'', total_posts = 2, total_images = 2,
                  posts = [ex_post\<lparr>images := [ex_img1\<lparr>index := 0\<rparr>]\<rparr>,
                           ex_post\<lparr>images := [ex_img0]\<rparr>],
                  alt_generation_enabled = True\<rparr>"

definition ex_state :: AppState where
  "ex_state = \<lparr>handle = ''me'', appPassword = ''pw'', loading = False, applying = False,
               error = None, applyMessage = None, result = Some ex_scan,
               altState = ex_alts, filterMode = FilterAll\<rparr>"

text \<open>A platform whose requests all fail, and one whose apply call reports a failed item.\<close>

definition ex_env_down :: env where
  "ex_env_down = \<lparr>fetch = (\<lambda>url b. Inl ''Failed to fetch''),
                  json_scan = (\<lambda>t. Inl ''Unexpected end of JSON input''),
                  json_apply = (\<lambda>t. Inl ''Unexpected end of JSON input''),
                  json_detail = (\<lambda>t. ParseThrows)\<rparr>"

definition ex_env_up :: env where
  "ex_env_up = \<lparr>fetch = (\<lambda>url b. Inr \<lparr>ok = True, status = 200, body = ''{}''\<rparr>),
                json_scan = (\<lambda>t. Inr ex_scan),
                json_apply = (\<lambda>t. Inr \<lparr>updated =
                   [\<lparr>res_uri = ''at://p1'', success = False, res_error = Some ''rejected''\<rparr>]\<rparr>),
                json_detail = (\<lambda>t. ParseThrows)\<rparr>"

section \<open>Basic facts\<close>

lemma trim_Nil: "trim [] = []"
  by (simp add: trim_def)

lemma hasAlt_iff: "hasAlt img \<longleftrightarrow> \<not> alt_missing img"
  by (auto simp: hasAlt_def alt_missing_def trim_Nil split: option.splits)

lemma ex_keys:
  "makeKey ''at://p1'' 0 = ''at://p1::0''" "makeKey ''at://p1'' 1 = ''at://p1::1''"
  by (simp_all add: makeKey_def show_int_def show_nat.simps digit_char_def)

lemmas ex_defs = ex_scan_def ex_post_def ex_img0_def ex_img1_def

lemmas ex_eval = all_images_def image_id_def image_key_def alt_missing_def default_draft_def
  in_batch_def batch_entry_def trim_def is_ws_def ex_keys

subsection \<open>The composite key determines the post URI and the image index\<close>

lemma digit_char_mem: "d < 10 \<Longrightarrow> digit_char d \<in> set ''0123456789''"
  unfolding digit_char_def by (rule nth_mem) simp

lemma digit_char_val: "d < 10 \<Longrightarrow> of_char (digit_char d) = 48 + d"
proof -
  assume "d < 10"
  then have "d \<in> {0,1,2,3,4,5,6,7,8,9}" by auto
  then show ?thesis by (auto simp: digit_char_def)
qed

lemma show_nat_digits: "set (show_nat n) \<subseteq> set ''0123456789''"
proof (induction n rule: show_nat.induct)
  case (1 n)
  show ?case
  proof (cases "n < 10")
    case True
    then show ?thesis using digit_char_mem [of n] by (subst show_nat.simps) simp
  next
    case False
    have "n mod 10 < 10" by simp
    then have "digit_char (n mod 10) \<in> set ''0123456789''" by (rule digit_char_mem)
    with False 1 show ?thesis by (subst show_nat.simps) simp
  qed
qed

lemma show_nat_not_Nil: "show_nat n \<noteq> []"
  by (subst show_nat.simps) simp

lemma read_show_nat: "read_nat (show_nat n) = n"
proof (induction n rule: show_nat.induct)
  case (1 n)
  show ?case
  proof (cases "n < 10")
    case True
    then show ?thesis
      by (subst show_nat.simps) (simp add: read_nat_def digit_char_val)
  next
    case False
    have m: "n mod 10 < 10" by simp
    from False 1 have "read_nat (show_nat (n div 10)) = n div 10" by simp
    with False show ?thesis
      by (subst show_nat.simps) (simp add: read_nat_def digit_char_val [OF m])
  qed
qed



lemma show_nat_inj:
  assumes "show_nat a = show_nat b"
  shows "a = b"
proof -
  have "read_nat (show_nat a) = read_nat (show_nat b)" by (simp only: assms)
  then show ?thesis by (simp only: read_show_nat)
qed

lemma not_digit: "CHR ''-'' \<notin> set ''0123456789''" "CHR '':'' \<notin> set ''0123456789''"
  by simp_all

lemma show_nat_no_minus: "show_nat n \<noteq> CHR ''-'' # t"
proof
  assume "show_nat n = CHR ''-'' # t"
  then have "CHR ''-'' \<in> set (show_nat n)" by simp
  then have "CHR ''-'' \<in> set ''0123456789''" using show_nat_digits [of n] by (rule subsetD [rotated])
  then show False using not_digit(1) by (rule notE [rotated])
qed

lemma show_int_inj:
  assumes "show_int a = show_int b"
  shows "a = b"
proof (cases "a < 0")
  case True
  note a = this
  show ?thesis
  proof (cases "b < 0")
    case True
    with a assms have "show_nat (nat (- a)) = show_nat (nat (- b))"
      by (simp add: show_int_def)
    then have "nat (- a) = nat (- b)" by (rule show_nat_inj)
    with a True show ?thesis by simp
  next
    case False
    with a assms have "show_nat (nat b) = CHR ''-'' # show_nat (nat (- a))"
      by (simp add: show_int_def)
    then show ?thesis using show_nat_no_minus by blast
  qed
next
  case False
  note a = this
  show ?thesis
  proof (cases "b < 0")
    case True
    with a assms have "show_nat (nat a) = CHR ''-'' # show_nat (nat (- b))"
      by (simp add: show_int_def)
    then show ?thesis using show_nat_no_minus by blast
  next
    case False
    with a assms have "show_nat (nat a) = show_nat (nat b)"
      by (simp add: show_int_def)
    then have "nat a = nat b" by (rule show_nat_inj)
    with a False show ?thesis by simp
  qed
qed

lemma show_nat_no_colon: "CHR '':'' \<notin> set (show_nat n)"
proof
  assume "CHR '':'' \<in> set (show_nat n)"
  then have "CHR '':'' \<in> set ''0123456789''" using show_nat_digits [of n] by (rule subsetD [rotated])
  then show False using not_digit(2) by (rule notE [rotated])
qed

lemma show_int_no_colon: "CHR '':'' \<notin> set (show_int i)"
  by (simp add: show_int_def show_nat_no_colon)

lemma split_last_colon:
  assumes "u @ ''::'' @ d = u' @ ''::'' @ d'" "CHR '':'' \<notin> set d" "CHR '':'' \<notin> set d'"
  shows "u = u' \<and> d = d'"
proof -
  have e: "rev d @ ''::'' @ rev u = rev d' @ ''::'' @ rev u'"
    using arg_cong [OF assms(1), of rev] by simp
  have "takeWhile (\<lambda>c. c \<noteq> CHR '':'') (rev d @ ''::'' @ rev u) = rev d"
    using assms(2) by (auto simp: takeWhile_tail)
  moreover have "takeWhile (\<lambda>c. c \<noteq> CHR '':'') (rev d' @ ''::'' @ rev u') = rev d'"
    using assms(3) by (auto simp: takeWhile_tail)
  ultimately have "rev d = rev d'" using e by simp
  then have "d = d'" by simp
  with assms(1) show ?thesis by simp
qed

lemma makeKey_inj:
  assumes "makeKey u i = makeKey u' i'"
  shows "u = u' \<and> i = i'"
proof -
  from assms have "u @ ''::'' @ show_int i = u' @ ''::'' @ show_int i'"
    by (simp add: makeKey_def)
  then have "u = u' \<and> show_int i = show_int i'"
    by (rule split_last_colon [OF _ show_int_no_colon show_int_no_colon])
  then show ?thesis using show_int_inj by blast
qed

lemma image_key_inj: "image_key a = image_key b \<longleftrightarrow> image_id a = image_id b"
  using makeKey_inj [of "uri (fst a)" "index (snd a)" "uri (fst b)" "index (snd b)"]
  by (auto simp: image_key_def image_id_def)

lemma distinct_keys: "distinct (map image_id xs) \<Longrightarrow> distinct (map image_key xs)"
  by (induction xs) (auto simp: image_key_inj)

subsection \<open>The loops as folds over the images of the scan\<close>

lemma apply_default_eq:
  "(case alt img of None \<Rightarrow> True | Some a \<Rightarrow> a = [] \<or> length (trim a) = 0) = alt_missing img"
  by (auto simp: alt_missing_def trim_Nil split: option.splits)

lemma generated_or_empty_eq:
  "generated_or_empty img = (case generated_alt img of Some g \<Rightarrow> g | None \<Rightarrow> [])"
  by (simp add: generated_or_empty_def split: option.splits)

lemma baseAlt_eq: "baseAlt img = default_draft img"
  by (simp add: baseAlt_def default_draft_def hasAlt_iff generated_or_empty_eq)

lemma lambda_upd: "(\<lambda>a. if a = k then v else m a) = m(k := v)"
  by (rule ext) simp

lemma init_step_apply:
  "init_step pi m k =
     (if k = image_key pi
      then Some \<lparr>apply_flag = alt_missing (snd pi), draftAlt = default_draft (snd pi)\<rparr>
      else m k)"
  by (simp add: init_step_def)

lemma select_step_apply:
  "select_step pi m k =
     (if k = image_key pi \<and> alt_missing (snd pi)
      then Some (case m k of
                   Some st \<Rightarrow> st\<lparr>apply_flag := True\<rparr>
                 | None \<Rightarrow> \<lparr>apply_flag = True, draftAlt = default_draft (snd pi)\<rparr>)
      else m k)"
  by (simp add: select_step_def)

lemma init_images_fold:
  "init_images (uri p) imgs m = fold init_step (map (Pair p) imgs) m"
  by (induction imgs arbitrary: m)
     (simp_all add: init_step_def image_key_def apply_default_eq baseAlt_eq)

lemma init_posts_fold:
  "init_posts ps m = fold init_step (concat (map (\<lambda>p. map (Pair p) (images p)) ps)) m"
  by (induction ps arbitrary: m) (simp_all add: init_images_fold)

lemma init_fold_other:
  "k \<notin> image_key ` set xs \<Longrightarrow> fold init_step xs m k = m k"
  by (induction xs arbitrary: m) (auto simp: init_step_apply)

lemma init_fold_distinct:
  "distinct (map image_key xs) \<Longrightarrow> pi \<in> set xs \<Longrightarrow>
   fold init_step xs m (image_key pi) =
     Some \<lparr>apply_flag = alt_missing (snd pi), draftAlt = default_draft (snd pi)\<rparr>"
proof (induction xs arbitrary: m)
  case Nil
  then show ?case by simp
next
  case (Cons x xs)
  show ?case
  proof (cases "pi = x")
    case True
    with Cons.prems have "image_key pi \<notin> image_key ` set xs" by auto
    then have "fold init_step xs (init_step x m) (image_key pi) = init_step x m (image_key pi)"
      by (rule init_fold_other)
    moreover have "init_step x m (image_key x) =
        Some \<lparr>apply_flag = alt_missing (snd x), draftAlt = default_draft (snd x)\<rparr>"
      by (simp add: init_step_apply)
    ultimately show ?thesis using True by simp
  next
    case False
    with Cons show ?thesis by simp
  qed
qed

lemma select_step_has: "hasAlt img \<Longrightarrow> select_step (p, img) m = m"
  by (simp add: select_step_def hasAlt_iff)

lemma select_step_missing:
  "\<not> hasAlt img \<Longrightarrow>
   select_step (p, img) m =
     m(makeKey (uri p) (index img) \<mapsto>
        (case m (makeKey (uri p) (index img)) of
           Some st \<Rightarrow> st
         | None \<Rightarrow> \<lparr>apply_flag = False, draftAlt = baseAlt img\<rparr>)\<lparr>apply_flag := True\<rparr>)"
  by (simp add: select_step_def hasAlt_iff image_key_def baseAlt_eq split: option.splits)

lemma select_images_fold:
  "select_images (uri p) imgs m = fold select_step (map (Pair p) imgs) m"
proof (induction imgs arbitrary: m)
  case Nil
  then show ?case by simp
next
  case (Cons img imgs)
  show ?case
  proof (cases "hasAlt img")
    case True
    then show ?thesis by (simp add: Cons.IH select_step_has)
  next
    case False
    then show ?thesis by (simp add: Cons.IH select_step_missing Let_def lambda_upd)
  qed
qed

lemma select_posts_fold:
  "select_posts ps m = fold select_step (concat (map (\<lambda>p. map (Pair p) (images p)) ps)) m"
  by (induction ps arbitrary: m) (simp_all add: select_images_fold)

lemma select_fold_find:
  "fold select_step xs m k =
     (case find (\<lambda>pi. image_key pi = k \<and> alt_missing (snd pi)) xs of
        None \<Rightarrow> m k
      | Some pi \<Rightarrow>
          Some (case m k of
                  Some st \<Rightarrow> st\<lparr>apply_flag := True\<rparr>
                | None \<Rightarrow> \<lparr>apply_flag = True, draftAlt = default_draft (snd pi)\<rparr>))"
proof (induction xs arbitrary: m)
  case Nil
  then show ?case by simp
next
  case (Cons x xs)
  show ?case
  proof (cases "image_key x = k \<and> alt_missing (snd x)")
    case True
    define E where "E = (case m k of
                           Some st \<Rightarrow> st\<lparr>apply_flag := True\<rparr>
                         | None \<Rightarrow> \<lparr>apply_flag = True, draftAlt = default_draft (snd x)\<rparr>)"
    have s: "select_step x m k = Some E"
      using True by (simp add: select_step_apply E_def)
    have E: "E\<lparr>apply_flag := True\<rparr> = E"
      by (simp add: E_def split: option.splits)
    have "fold select_step xs (select_step x m) k = Some E"
      by (simp add: Cons.IH s E split: option.splits)
    with True show ?thesis by (simp add: E_def)
  next
    case False
    then have st: "select_step x m k = m k" by (auto simp: select_step_apply)
    have "fold select_step (x # xs) m k = fold select_step xs (select_step x m) k" by simp
    also have "\<dots> = (case find (\<lambda>pi. image_key pi = k \<and> alt_missing (snd pi)) xs of
        None \<Rightarrow> select_step x m k
      | Some pi \<Rightarrow>
          Some (case select_step x m k of
                  Some st \<Rightarrow> st\<lparr>apply_flag := True\<rparr>
                | None \<Rightarrow> \<lparr>apply_flag = True, draftAlt = default_draft (snd pi)\<rparr>))"
      by (rule Cons.IH)
    also have "\<dots> = (case find (\<lambda>pi. image_key pi = k \<and> alt_missing (snd pi)) (x # xs) of
        None \<Rightarrow> m k
      | Some pi \<Rightarrow>
          Some (case m k of
                  Some st \<Rightarrow> st\<lparr>apply_flag := True\<rparr>
                | None \<Rightarrow> \<lparr>apply_flag = True, draftAlt = default_draft (snd pi)\<rparr>))"
      using False by (auto simp: st split: option.splits)
    finally show ?thesis .
  qed
qed

lemma select_fold_idem:
  "fold select_step xs (fold select_step xs m) = fold select_step xs m"
proof
  fix k
  show "fold select_step xs (fold select_step xs m) k = fold select_step xs m k"
    by (simp add: select_fold_find [of xs _ k] split: option.splits)
qed

lemma find_distinct_key:
  assumes "distinct (map image_key xs)" "pi \<in> set xs"
  shows "find (\<lambda>q. image_key q = image_key pi \<and> P q) xs = (if P pi then Some pi else None)"
  using assms
proof (induction xs)
  case Nil
  then show ?case by simp
next
  case (Cons x xs)
  show ?case
  proof (cases "pi = x")
    case True
    with Cons.prems have "\<forall>q \<in> set xs. image_key q \<noteq> image_key pi" by (metis distinct.simps(2) imageI list.simps(9) list.set_map)
    then have "find (\<lambda>q. image_key q = image_key pi \<and> P q) xs = None"
      by (auto simp: find_None_iff)
    with True show ?thesis by simp
  next
    case False
    with Cons.prems have "image_key x \<noteq> image_key pi" by auto
    with False Cons show ?thesis by simp
  qed
qed

lemma collect_images_eq:
  "collect_images p imgs m acc = acc @ map (batch_entry m) (filter (in_batch m) (map (Pair p) imgs))"
  by (induction imgs arbitrary: acc)
     (auto simp: in_batch_def batch_entry_def image_key_def Let_def split: option.splits)

lemma collect_posts_eq:
  "collect_posts ps m acc =
     acc @ map (batch_entry m) (filter (in_batch m) (concat (map (\<lambda>p. map (Pair p) (images p)) ps)))"
  by (induction ps arbitrary: acc) (simp_all add: collect_images_eq)

lemma reconcile_image_eq:
  "reconcile_image m p img =
     (if in_batch m (p, img) then img\<lparr>alt := Some (new_alt (batch_entry m (p, img)))\<rparr> else img)"
  by (simp add: reconcile_image_def in_batch_def batch_entry_def image_key_def split: option.splits)

section \<open>Default derivation\<close>

text \<open>
  C1. In a scan result whose images have distinct (post URI, image index) pairs, the
  state that \<open>initAltStateFromResult\<close> stores for an image has \<open>draftAlt\<close> equal to the
  existing alt when that is non-empty after trimming, otherwise the generated alt when
  present, otherwise the empty string; and \<open>apply\<close> is true exactly when the existing alt is
  absent or empty after trimming.
\<close>

theorem initAltStateFromResult_default:
  assumes "distinct (map image_id (all_images data))"
    and "(p, img) \<in> set (all_images data)"
  shows "initAltStateFromResult data (makeKey (uri p) (index img)) =
           Some \<lparr>apply_flag = alt_missing img, draftAlt = default_draft img\<rparr>"
proof -
  have "distinct (map image_key (all_images data))"
    using assms(1) by (rule distinct_keys)
  then have "fold init_step (all_images data) Map.empty (image_key (p, img)) =
      Some \<lparr>apply_flag = alt_missing (snd (p, img)), draftAlt = default_draft (snd (p, img))\<rparr>"
    using assms(2) by (rule init_fold_distinct)
  then show ?thesis
    by (simp add: initAltStateFromResult_def init_posts_fold all_images_def image_key_def)
qed

theorem initAltStateFromResult_default_witness:
  "initAltStateFromResult ex_scan (makeKey (uri ex_post) (index ex_img0)) =
     Some \<lparr>apply_flag = True, draftAlt = ''a dog''\<rparr>
   \<and> initAltStateFromResult ex_scan (makeKey (uri ex_post) (index ex_img1)) =
     Some \<lparr>apply_flag = False, draftAlt = ''cat''\<rparr>"
  using initAltStateFromResult_default [of ex_scan ex_post ex_img0]
    initAltStateFromResult_default [of ex_scan ex_post ex_img1]
  by (simp add: ex_defs ex_eval)

text \<open>
  The hypothesis on the pairs cannot be dropped: when two images share a key, the
  entry is the one of the image visited last.
\<close>

lemma initAltStateFromResult_shared_key:
  "(ex_post\<lparr>images := [ex_img1\<lparr>index := 0\<rparr>]\<rparr>, ex_img1\<lparr>index := 0\<rparr>) \<in> set (all_images ex_scan_dup)
   \<and> \<not> alt_missing (ex_img1\<lparr>index := 0\<rparr>)
   \<and> initAltStateFromResult ex_scan_dup (makeKey ''at://p1'' 0) =
       Some \<lparr>apply_flag = True, draftAlt = ''a dog''\<rparr>"
  by (simp add: initAltStateFromResult_def ex_scan_dup_def ex_defs ex_eval baseAlt_def hasAlt_def
        generated_or_empty_def)

section \<open>Building the apply batch\<close>

text \<open>
  C2. The list of updates built by \<open>onApplyChanges\<close> is, in scan order, the entry
  \<open>{uri, image_index, new_alt: trimmed draftAlt}\<close> of every image whose stored state has
  \<open>apply\<close> set and a draft that is non-empty after trimming, and of no other image; no
  update has an empty \<open>new_alt\<close>.
\<close>

theorem apply_batch_construction:
  "collect_posts (posts r) m [] = map (batch_entry m) (filter (in_batch m) (all_images r))
   \<and> (\<forall>u \<in> set (collect_posts (posts r) m []). new_alt u \<noteq> [])
   \<and> (\<forall>pi \<in> set (all_images r).
         (batch_entry m pi \<in> set (collect_posts (posts r) m [])) = in_batch m pi)"
proof -
  have eq: "collect_posts (posts r) m [] = map (batch_entry m) (filter (in_batch m) (all_images r))"
    by (simp add: collect_posts_eq all_images_def)
  have ne: "new_alt (batch_entry m pi) \<noteq> []" if "in_batch m pi" for pi
    using that by (auto simp: in_batch_def batch_entry_def split: option.splits)
  have same: "in_batch m pi" if "in_batch m q" "batch_entry m q = batch_entry m pi" for pi q
  proof -
    from that(2) have "image_key q = image_key pi"
      by (simp add: batch_entry_def image_key_def)
    with that(1) show ?thesis by (simp add: in_batch_def)
  qed
  show ?thesis
    unfolding eq using ne same by auto
qed

theorem apply_batch_construction_witness:
  "collect_posts (posts ex_scan) ex_alts_edited [] =
     [\<lparr>upd_uri = ''at://p1'', image_index = 1, new_alt = ''dog''\<rparr>]
   \<and> in_batch ex_alts_edited (ex_post, ex_img1)
   \<and> \<not> in_batch ex_alts_edited (ex_post, ex_img0)"
  using apply_batch_construction [of ex_scan ex_alts_edited]
  by (simp add: ex_defs ex_eval ex_alts_edited_def)

lemma batch_empty_iff:
  "collect_posts (posts r) m [] = [] \<longleftrightarrow> (\<forall>pi \<in> set (all_images r). \<not> in_batch m pi)"
  by (simp add: collect_posts_eq all_images_def filter_empty_conv)

text \<open>
  C5. When a scan result is present and no image has \<open>apply\<close> set together with a draft
  that is non-empty after trimming, \<open>onApplyChanges\<close> issues no request, leaves the scan
  result and the selection state as they are, and sets the message
  "No images selected for update.".
\<close>

theorem empty_batch_short_circuit:
  assumes "result s = Some r"
    and "\<forall>pi \<in> set (all_images r). \<not> in_batch (altState s) pi"
  shows "onApplyChanges e s =
           (s\<lparr>applyMessage := Some ''No images selected for update.'', error := None\<rparr>, [])"
proof -
  have "collect_posts (posts r) (altState s) [] = []"
    using assms(2) by (simp only: batch_empty_iff)
  with assms(1) show ?thesis
    by (simp add: onApplyChanges_def)
qed

theorem empty_batch_short_circuit_witness:
  "snd (onApplyChanges ex_env_up (ex_state\<lparr>altState := ex_alts_blank\<rparr>)) = []
   \<and> applyMessage (fst (onApplyChanges ex_env_up (ex_state\<lparr>altState := ex_alts_blank\<rparr>)))
        = Some ''No images selected for update.''
   \<and> result (fst (onApplyChanges ex_env_up (ex_state\<lparr>altState := ex_alts_blank\<rparr>)))
        = Some ex_scan
   \<and> altState (fst (onApplyChanges ex_env_up (ex_state\<lparr>altState := ex_alts_blank\<rparr>)))
        = ex_alts_blank"
  using empty_batch_short_circuit [of "ex_state\<lparr>altState := ex_alts_blank\<rparr>" ex_scan ex_env_up]
  by (simp add: ex_state_def ex_defs ex_eval ex_alts_blank_def)

lemma reconcile_map:
  "map (reconcile_image m p) imgs =
     map (\<lambda>img. if in_batch m (p, img)
                 then img\<lparr>alt := Some (new_alt (batch_entry m (p, img)))\<rparr>
                 else img) imgs"
  by (simp add: reconcile_image_eq)

text \<open>
  C4. When the apply call succeeds at the protocol level, the request carried the entries
  of the images with \<open>apply\<close> set and a draft that is non-empty after trimming, and the
  stored scan result becomes the previous one with the alt of every such image replaced by
  its trimmed draft, whatever the response reports for the items; the other images and the
  selection state are unchanged.
\<close>

theorem optimistic_reconciliation:
  assumes "result s = Some r"
    and "collect_posts (posts r) (altState s) [] \<noteq> []"
    and "fst (applyAltUpdates e (handle s) (appPassword s)
                (collect_posts (posts r) (altState s) [])) = Inr resp"
  shows "snd (onApplyChanges e s) =
           [(API_BASE @ ''/api/apply'',
             ApplyBody (handle s) (appPassword s)
               (map (batch_entry (altState s)) (filter (in_batch (altState s)) (all_images r))))]
         \<and> result (fst (onApplyChanges e s)) = Some (reconciled (altState s) r)
         \<and> altState (fst (onApplyChanges e s)) = altState s
         \<and> error (fst (onApplyChanges e s)) = None"
proof -
  let ?u = "collect_posts (posts r) (altState s) []"
  have u: "?u = map (batch_entry (altState s)) (filter (in_batch (altState s)) (all_images r))"
    by (simp add: collect_posts_eq all_images_def)
  have c: "snd (applyAltUpdates e (handle s) (appPassword s) ?u) =
      [(API_BASE @ ''/api/apply'', ApplyBody (handle s) (appPassword s) ?u)]"
    by (simp add: applyAltUpdates_def Let_def)
  obtain calls where ap: "applyAltUpdates e (handle s) (appPassword s) ?u = (Inr resp, calls)"
    using assms(3) by (cases "applyAltUpdates e (handle s) (appPassword s) ?u") simp
  with c have calls: "calls = [(API_BASE @ ''/api/apply'', ApplyBody (handle s) (appPassword s) ?u)]"
    by simp
  show ?thesis
    unfolding u [symmetric] using assms(1,2)
    by (simp add: onApplyChanges_def Let_def ap calls reconciled_def reconcile_map)
qed

theorem optimistic_reconciliation_witness:
  "updated (projr (fst (applyAltUpdates ex_env_up (handle ex_state) (appPassword ex_state)
       (collect_posts (posts ex_scan) (altState ex_state) []))))
     = [\<lparr>res_uri = ''at://p1'', success = False, res_error = Some ''rejected''\<rparr>]
   \<and> result (fst (onApplyChanges ex_env_up ex_state))
     = Some (ex_scan\<lparr>posts := [ex_post\<lparr>images := [ex_img0\<lparr>alt := Some ''a dog''\<rparr>, ex_img1]\<rparr>]\<rparr>)"
  using optimistic_reconciliation [of ex_state ex_scan ex_env_up
      "\<lparr>updated = [\<lparr>res_uri = ''at://p1'', success = False, res_error = Some ''rejected''\<rparr>]\<rparr>"]
  by (simp add: ex_state_def ex_alts_def ex_defs ex_eval ex_env_up_def applyAltUpdates_def
        reconciled_def Let_def)

section \<open>Transport failures\<close>

text \<open>
  C3, as amended. When the apply call fails, \<open>onApplyChanges\<close> leaves the scan result and
  the selection state exactly as they were before it was triggered and sets the error
  (the apply message is cleared). When the scan call fails, the failure sets the error
  only, but \<open>onSubmit\<close> has cleared both stores before issuing the call: afterwards the
  scan result is absent and the selection state is the empty map, whatever they held.
\<close>

theorem transport_failure_state:
  "(handle s \<noteq> [] \<longrightarrow> appPassword s \<noteq> [] \<longrightarrow>
      fst (scanImages e \<lparr>req_handle = handle s, app_password = appPassword s,
                          generate_alt = Some True\<rparr>) = Inl msg \<longrightarrow>
      fst (onSubmit e s) =
        s\<lparr>error := Some (catch_message e ''An error occurred while scanning.'' msg),
          applyMessage := None, result := None, altState := Map.empty, loading := False\<rparr>)
   \<and> (result s = Some r \<longrightarrow> collect_posts (posts r) (altState s) [] \<noteq> [] \<longrightarrow>
      fst (applyAltUpdates e (handle s) (appPassword s)
             (collect_posts (posts r) (altState s) [])) = Inl msg \<longrightarrow>
      fst (onApplyChanges e s) =
        s\<lparr>applyMessage := None,
          error := Some (catch_message e ''An error occurred while applying changes.'' msg),
          applying := False\<rparr>)"
proof (intro conjI impI)
  assume h: "handle s \<noteq> []" "appPassword s \<noteq> []"
    and f: "fst (scanImages e \<lparr>req_handle = handle s, app_password = appPassword s,
                          generate_alt = Some True\<rparr>) = Inl msg"
  obtain calls where "scanImages e \<lparr>req_handle = handle s, app_password = appPassword s,
       generate_alt = Some True\<rparr> = (Inl msg, calls)"
    using f by (cases "scanImages e \<lparr>req_handle = handle s, app_password = appPassword s,
       generate_alt = Some True\<rparr>") simp
  with h show "fst (onSubmit e s) =
        s\<lparr>error := Some (catch_message e ''An error occurred while scanning.'' msg),
          applyMessage := None, result := None, altState := Map.empty, loading := False\<rparr>"
    by (simp add: onSubmit_def Let_def)
next
  assume h: "result s = Some r" "collect_posts (posts r) (altState s) [] \<noteq> []"
    and f: "fst (applyAltUpdates e (handle s) (appPassword s)
             (collect_posts (posts r) (altState s) [])) = Inl msg"
  obtain calls where "applyAltUpdates e (handle s) (appPassword s)
             (collect_posts (posts r) (altState s) []) = (Inl msg, calls)"
    using f by (cases "applyAltUpdates e (handle s) (appPassword s)
             (collect_posts (posts r) (altState s) [])") simp
  with h show "fst (onApplyChanges e s) =
        s\<lparr>applyMessage := None,
          error := Some (catch_message e ''An error occurred while applying changes.'' msg),
          applying := False\<rparr>"
    by (simp add: onApplyChanges_def Let_def)
qed

theorem transport_failure_state_witness:
  "fst (onSubmit ex_env_down ex_state) =
     ex_state\<lparr>error := Some ''Failed to fetch'', result := None, altState := Map.empty\<rparr>
   \<and> fst (onApplyChanges ex_env_down ex_state) = ex_state\<lparr>error := Some ''Failed to fetch''\<rparr>
   \<and> collect_posts (posts ex_scan) (altState ex_state) [] \<noteq> []"
  using transport_failure_state [of ex_state ex_env_down "''Failed to fetch''" ex_scan]
  by (simp add: ex_state_def ex_alts_def ex_defs ex_eval ex_env_down_def applyAltUpdates_def
        scanImages_def catch_message_def Let_def)

text \<open>
  The claim as stated fails for the scan call: a failed scan, started from a state that
  holds a scan result and selections, ends with neither.
\<close>

theorem scan_failure_discards_previous_state:
  "fst (scanImages ex_env_down
         \<lparr>req_handle = handle ex_state, app_password = appPassword ex_state,
          generate_alt = Some True\<rparr>) = Inl ''Failed to fetch''
   \<and> result ex_state = Some ex_scan
   \<and> result (fst (onSubmit ex_env_down ex_state)) = None
   \<and> altState ex_state ''at://p1::0'' = Some \<lparr>apply_flag = True, draftAlt = ''a dog''\<rparr>
   \<and> altState (fst (onSubmit ex_env_down ex_state)) ''at://p1::0'' = None
   \<and> error (fst (onSubmit ex_env_down ex_state)) = Some ''Failed to fetch''"
  by (simp add: onSubmit_def scanImages_def Let_def ex_state_def ex_env_down_def ex_alts_def
        catch_message_def)

section \<open>Selecting all images without alt text\<close>

text \<open>
  C6. \<open>bulkSelectMissingAlt\<close> is idempotent from any state. In a scan result whose
  images have distinct (post URI, image index) pairs, the entry of an image whose alt is
  non-empty after trimming is unchanged (an absent entry stays absent), and the entry of
  an image whose alt is absent or empty after trimming gets \<open>apply\<close> set to true, with its
  previous draft when it had an entry and the draft of the default derivation otherwise.
\<close>

theorem bulkSelectMissingAlt_effect:
  "bulkSelectMissingAlt (bulkSelectMissingAlt s) = bulkSelectMissingAlt s
   \<and> (result s = Some r \<longrightarrow> distinct (map image_id (all_images r)) \<longrightarrow>
        (p, img) \<in> set (all_images r) \<longrightarrow>
        altState (bulkSelectMissingAlt s) (makeKey (uri p) (index img)) =
          (if alt_missing img
           then Some \<lparr>apply_flag = True,
                      draftAlt = (case altState s (makeKey (uri p) (index img)) of
                                    Some st \<Rightarrow> draftAlt st
                                  | None \<Rightarrow> default_draft img)\<rparr>
           else altState s (makeKey (uri p) (index img))))"
proof (intro conjI impI)
  show "bulkSelectMissingAlt (bulkSelectMissingAlt s) = bulkSelectMissingAlt s"
    by (cases "result s")
       (simp_all add: bulkSelectMissingAlt_def select_posts_fold select_fold_idem)
next
  assume r: "result s = Some r" and d: "distinct (map image_id (all_images r))"
    and i: "(p, img) \<in> set (all_images r)"
  let ?k = "makeKey (uri p) (index img)"
  have k: "image_key (p, img) = ?k" by (simp add: image_key_def)
  have "distinct (map image_key (all_images r))" using d by (rule distinct_keys)
  then have f: "find (\<lambda>q. image_key q = image_key (p, img) \<and> alt_missing (snd q)) (all_images r)
      = (if alt_missing (snd (p, img)) then Some (p, img) else None)"
    using i by (rule find_distinct_key)
  have "altState (bulkSelectMissingAlt s) ?k = fold select_step (all_images r) (altState s) ?k"
    using r by (simp add: bulkSelectMissingAlt_def select_posts_fold all_images_def)
  also have "\<dots> = (case find (\<lambda>pi. image_key pi = ?k \<and> alt_missing (snd pi)) (all_images r) of
        None \<Rightarrow> altState s ?k
      | Some pi \<Rightarrow>
          Some (case altState s ?k of
                  Some st \<Rightarrow> st\<lparr>apply_flag := True\<rparr>
                | None \<Rightarrow> \<lparr>apply_flag = True, draftAlt = default_draft (snd pi)\<rparr>))"
    by (rule select_fold_find)
  also have "\<dots> = (if alt_missing img
           then Some \<lparr>apply_flag = True,
                      draftAlt = (case altState s ?k of
                                    Some st \<Rightarrow> draftAlt st
                                  | None \<Rightarrow> default_draft img)\<rparr>
           else altState s ?k)"
    using f by (simp add: k split: option.splits)
  finally show "altState (bulkSelectMissingAlt s) ?k =
          (if alt_missing img
           then Some \<lparr>apply_flag = True,
                      draftAlt = (case altState s ?k of
                                    Some st \<Rightarrow> draftAlt st
                                  | None \<Rightarrow> default_draft img)\<rparr>
           else altState s ?k)" .
qed

theorem bulkSelectMissingAlt_effect_witness:
  "altState (bulkSelectMissingAlt (ex_state\<lparr>altState := ex_alts_partial\<rparr>))
       (makeKey (uri ex_post) (index ex_img0))
     = Some \<lparr>apply_flag = True, draftAlt = ''a dog''\<rparr>
   \<and> altState (bulkSelectMissingAlt (ex_state\<lparr>altState := ex_alts_partial\<rparr>))
       (makeKey (uri ex_post) (index ex_img1))
     = Some \<lparr>apply_flag = True, draftAlt = ''kitten''\<rparr>
   \<and> altState (bulkSelectMissingAlt (ex_state\<lparr>altState := ex_alts_blank\<rparr>))
       (makeKey (uri ex_post) (index ex_img0))
     = Some \<lparr>apply_flag = True, draftAlt = ''  ''\<rparr>
   \<and> altState (bulkSelectMissingAlt (ex_state\<lparr>altState := ex_alts_blank\<rparr>))
       (makeKey (uri ex_post) (index ex_img1))
     = Some \<lparr>apply_flag = False, draftAlt = ''cat''\<rparr>"
  using bulkSelectMissingAlt_effect
      [of "ex_state\<lparr>altState := ex_alts_partial\<rparr>" ex_scan ex_post ex_img0]
    bulkSelectMissingAlt_effect
      [of "ex_state\<lparr>altState := ex_alts_partial\<rparr>" ex_scan ex_post ex_img1]
    bulkSelectMissingAlt_effect
      [of "ex_state\<lparr>altState := ex_alts_blank\<rparr>" ex_scan ex_post ex_img0]
    bulkSelectMissingAlt_effect
      [of "ex_state\<lparr>altState := ex_alts_blank\<rparr>" ex_scan ex_post ex_img1]
  by (simp add: ex_state_def ex_alts_partial_def ex_alts_blank_def ex_defs ex_eval)

section \<open>Clearing the selections\<close>

text \<open>
  C7. \<open>bulkClearSelections\<close> changes nothing but the selection map; there, every key
  that has an entry keeps it with \<open>apply\<close> set to false and the same \<open>draftAlt\<close>, and
  a key without an entry still has none.
\<close>

theorem bulkClearSelections_entries:
  "bulkClearSelections s = s\<lparr>altState := altState (bulkClearSelections s)\<rparr>
   \<and> altState (bulkClearSelections s) k =
       (case altState s k of
          None \<Rightarrow> None
        | Some v \<Rightarrow> Some \<lparr>apply_flag = False, draftAlt = draftAlt v\<rparr>)"
  by (simp add: bulkClearSelections_def split: option.splits)

section \<open>The filter\<close>

text \<open>
  C8. Every image is visible under the mode "all", and under exactly one of the modes
  "missingAlt" and "hasAlt", whatever the selection state: "missingAlt" shows it when its
  alt is absent or empty after trimming, "hasAlt" shows it otherwise.
\<close>

theorem shouldShowImage_partition:
  "shouldShowImage (s\<lparr>filterMode := FilterAll\<rparr>) p img
     = (shouldShowImage (s\<lparr>filterMode := MissingAlt\<rparr>) p img
          \<noteq> shouldShowImage (s\<lparr>filterMode := HasAlt\<rparr>) p img)
   \<and> shouldShowImage (s\<lparr>filterMode := FilterAll\<rparr>) p img
   \<and> shouldShowImage (s\<lparr>filterMode := MissingAlt\<rparr>) p img = alt_missing img
   \<and> shouldShowImage (s\<lparr>filterMode := HasAlt\<rparr>) p img = (\<not> alt_missing img)"
  by (simp add: shouldShowImage_def hasAlt_iff)

section \<open>Editing one entry\<close>

text \<open>
  C9. \<open>handleAltChange\<close> (setDraft) and \<open>handleApplyToggle\<close> (setApply) change nothing but
  the selection map, and there only the entry of the key of the image: the former stores
  the new draft with the previous apply flag (false when the key had no entry), the latter
  stores the new flag with the previous draft (the empty string when the key had no entry).
  Every other key keeps what it had.
\<close>

theorem single_key_edits:
  "handleAltChange u i v s = s\<lparr>altState := altState (handleAltChange u i v s)\<rparr>
   \<and> altState (handleAltChange u i v s) k =
       (if k = makeKey u i
        then Some \<lparr>apply_flag = (case altState s k of None \<Rightarrow> False | Some st \<Rightarrow> apply_flag st),
                   draftAlt = v\<rparr>
        else altState s k)
   \<and> handleApplyToggle u i a s = s\<lparr>altState := altState (handleApplyToggle u i a s)\<rparr>
   \<and> altState (handleApplyToggle u i a s) k =
       (if k = makeKey u i
        then Some \<lparr>apply_flag = a,
                   draftAlt = (case altState s k of None \<Rightarrow> [] | Some st \<Rightarrow> draftAlt st)\<rparr>
        else altState s k)"
  by (simp add: handleAltChange_def handleApplyToggle_def Let_def)

section \<open>Submitting a scan\<close>

lemma onSubmit_success:
  assumes "handle s \<noteq> []" "appPassword s \<noteq> []"
    and "fst (scanImages e \<lparr>req_handle = handle s, app_password = appPassword s,
                          generate_alt = Some True\<rparr>) = Inr data"
  shows "fst (onSubmit e s) =
           s\<lparr>error := None, applyMessage := None, result := Some data,
             altState := initAltStateFromResult data, loading := False\<rparr>"
proof -
  obtain calls where "scanImages e \<lparr>req_handle = handle s, app_password = appPassword s,
       generate_alt = Some True\<rparr> = (Inr data, calls)"
    using assms(3) by (cases "scanImages e \<lparr>req_handle = handle s, app_password = appPassword s,
       generate_alt = Some True\<rparr>") simp
  with assms(1,2) show ?thesis
    by (simp add: onSubmit_def Let_def)
qed

text \<open>
  C10. When the handle or the app password is empty, \<open>onSubmit\<close> issues no request and
  sets the error "Please enter both handle and app password."; the previous scan result
  and the whole selection state are discarded all the same.
\<close>

theorem onSubmit_missing_credentials:
  assumes "handle s = [] \<or> appPassword s = []"
  shows "onSubmit e s =
           (s\<lparr>error := Some ''Please enter both handle and app password.'',
              applyMessage := None, result := None, altState := Map.empty\<rparr>, [])"
  using assms by (auto simp: onSubmit_def Let_def)

theorem onSubmit_missing_credentials_witness:
  "result (ex_state\<lparr>appPassword := []\<rparr>) = Some ex_scan
   \<and> altState (ex_state\<lparr>appPassword := []\<rparr>) ''at://p1::0'' \<noteq> None
   \<and> snd (onSubmit ex_env_up (ex_state\<lparr>appPassword := []\<rparr>)) = []
   \<and> error (fst (onSubmit ex_env_up (ex_state\<lparr>appPassword := []\<rparr>)))
       = Some ''Please enter both handle and app password.''
   \<and> result (fst (onSubmit ex_env_up (ex_state\<lparr>appPassword := []\<rparr>))) = None
   \<and> altState (fst (onSubmit ex_env_up (ex_state\<lparr>appPassword := []\<rparr>))) = Map.empty"
  using onSubmit_missing_credentials [of "ex_state\<lparr>appPassword := []\<rparr>" ex_env_up]
  by (simp add: ex_state_def ex_alts_def)

end
